theory Spec2Isabelle
  imports Complex_Main "HOL-Library.Log_Nat"
begin

section \<open>Venlo Weer: the data transformations of app.py\<close>

text \<open>
  The program is one Python file. This theory embeds the parts of it that carry
  semantics: the two lookup functions \<open>get_weather_emoji\<close> and
  \<open>direction_to_text\<close>, the reconciliation of the two shapes of the current-conditions
  record at the start of \<open>main\<close>, the reads that feed the metric cards, and the hourly
  projection that fills the first table.

  Conventions of the embedding.
  \<^item> A parsed JSON value is a value of the datatype \<open>json\<close>; a Python \<open>dict\<close> is an
    association list, looked up with \<open>map_of\<close> and written with \<open>dict_set\<close>, which
    keeps the position of a key that is already there and appends a new one, as
    Python's insertion order does.
  \<^item> A number of the response is the rational value of its JSON literal. Where the
    program computes with it in floating point, the model rounds to binary64 as
    Python does (\<open>to_float\<close>); \<open>NaN\<close> literals are outside the model.
  \<^item> A Python \<open>str\<close> is a list of characters, one \<open>char\<close> per code point, which
    is exact for the ASCII timestamps and compass labels the program handles. The
    display glyphs are outside ASCII and are written as lists of Unicode code points.
  \<^item> Every exception the modelled lines can raise is a value \<open>Inl e\<close> of a sum type.
\<close>

subsection \<open>Values and errors\<close>

datatype json =
    JNull
  | JBool bool
  | JNum rat
  | JStr string
  | JArr "json list"
  | JObj "(string \<times> json) list"

datatype py_error = TypeError | AttributeError | KeyError | ValueError | OverflowError

type_synonym dict = "(string \<times> json) list"

text \<open>Python truthiness, as \<open>or\<close> and \<open>if not data\<close> test it.\<close>

fun truthy :: "json \<Rightarrow> bool" where
  "truthy JNull = False"
| "truthy (JBool b) = b"
| "truthy (JNum r) = (r \<noteq> 0)"
| "truthy (JStr s) = (s \<noteq> [])"
| "truthy (JArr xs) = (xs \<noteq> [])"
| "truthy (JObj d) = (d \<noteq> [])"

text \<open>\<open>a or b\<close>: the first operand when it is truthy, else the second.\<close>

definition py_or :: "json \<Rightarrow> json \<Rightarrow> json" where
  "py_or a b = (if truthy a then a else b)"

text \<open>\<open>d.get(k, dflt)\<close> and \<open>d.get(k)\<close>, whose default is \<open>None\<close>.\<close>

definition dict_get :: "dict \<Rightarrow> string \<Rightarrow> json \<Rightarrow> json" where
  "dict_get d k dflt = (case map_of d k of Some v \<Rightarrow> v | None \<Rightarrow> dflt)"

definition dict_get1 :: "dict \<Rightarrow> string \<Rightarrow> json" where
  "dict_get1 d k = dict_get d k JNull"

text \<open>\<open>k in d\<close> for a dict \<open>d\<close>.\<close>

definition dict_has :: "dict \<Rightarrow> string \<Rightarrow> bool" where
  "dict_has d k = (map_of d k \<noteq> None)"

text \<open>\<open>d[k]\<close>, which raises \<open>KeyError\<close> on a missing key.\<close>

definition dict_index :: "dict \<Rightarrow> string \<Rightarrow> py_error + json" where
  "dict_index d k = (case map_of d k of Some v \<Rightarrow> Inr v | None \<Rightarrow> Inl KeyError)"

text \<open>\<open>d[k] = v\<close>: overwrite in place, or append a new key.\<close>

fun dict_set :: "dict \<Rightarrow> string \<Rightarrow> json \<Rightarrow> dict" where
  "dict_set [] k v = [(k, v)]"
| "dict_set ((k', v') # d) k v =
     (if k' = k then (k, v) # d else (k', v') # dict_set d k v)"

subsection \<open>Lookup tables\<close>

type_synonym glyph = "nat list"

text \<open>The table \<open>codes\<close> of \<open>get_weather_emoji\<close>, in the order of the source.\<close>

definition codes :: "(int \<times> glyph) list" where
  "codes =
    [(0, [0x2600, 0xFE0F]), (1, [0x1F324, 0xFE0F]), (2, [0x26C5]), (3, [0x2601, 0xFE0F]),
     (45, [0x1F32B, 0xFE0F]), (48, [0x1F32B, 0xFE0F]),
     (51, [0x1F327, 0xFE0F]), (53, [0x1F327, 0xFE0F]), (55, [0x1F327, 0xFE0F]),
     (61, [0x1F327, 0xFE0F]), (63, [0x1F327, 0xFE0F]), (65, [0x1F327, 0xFE0F]),
     (66, [0x1F328, 0xFE0F]), (67, [0x1F328, 0xFE0F]),
     (71, [0x2744, 0xFE0F]), (73, [0x2744, 0xFE0F]), (75, [0x2744, 0xFE0F]),
     (77, [0x2744, 0xFE0F]),
     (80, [0x1F326, 0xFE0F]), (81, [0x1F326, 0xFE0F]), (82, [0x1F326, 0xFE0F]),
     (85, [0x1F328, 0xFE0F]), (86, [0x1F328, 0xFE0F]),
     (95, [0x26C8, 0xFE0F]), (96, [0x26C8, 0xFE0F]), (99, [0x26C8, 0xFE0F])]"

text \<open>The default of \<open>codes.get(code, ...)\<close>: the thermometer.\<close>

definition fallback_glyph :: glyph where
  "fallback_glyph = [0x1F321, 0xFE0F]"

definition get_weather_emoji :: "int \<Rightarrow> glyph" where
  "get_weather_emoji code =
     (case map_of codes code of Some g \<Rightarrow> g | None \<Rightarrow> fallback_glyph)"

text \<open>
  Python's \<open>round\<close> with one argument: the nearest integer, a tie going to the even
  neighbour.
\<close>

definition py_round :: "rat \<Rightarrow> int" where
  "py_round x =
     (let f = \<lfloor>x\<rfloor>; d = x - of_int f
      in if d < 1 / 2 then f
         else if 1 / 2 < d then f + 1
         else if even f then f else f + 1)"

definition directions :: "string list" where
  "directions =
     [''N'', ''NNO'', ''NO'', ''ONO'', ''O'', ''OZO'', ''ZO'', ''ZZO'',
      ''Z'', ''ZZW'', ''ZW'', ''WZW'', ''W'', ''WNW'', ''NW'', ''NNW'']"

text \<open>
  Binary64. \<open>expo x\<close> is the binary exponent of a positive rational, the \<open>e\<close> with
  \<open>2\<^sup>e \<le> x < 2\<^sup>e\<^sup>+\<^sup>1\<close>, found from the bit lengths of numerator and denominator.
\<close>

definition expo :: "rat \<Rightarrow> int" where
  "expo x =
     (let (p, q) = quotient_of x; e = bitlen p - bitlen q
      in if 2 powi e \<le> x then e else e - 1)"

text \<open>
  \<open>to_float x\<close> is the binary64 value nearest to \<open>x\<close>, a tie going to the even
  significand: 53 significant bits, exponents from \<open>-1022\<close> (below, the spacing stays
  \<open>2\<^sup>-\<^sup>1\<^sup>0\<^sup>7\<^sup>4\<close>), and no value once the rounded magnitude reaches \<open>2\<^sup>1\<^sup>0\<^sup>2\<^sup>4\<close>. This is
  how Python converts an \<open>int\<close> operand of a float division (raising \<open>OverflowError\<close>
  when there is no value), how it reads a float literal (giving an infinity when
  there is none), and how each float operation rounds its exact result.
\<close>

text \<open>The bound \<open>2\<^sup>1\<^sup>0\<^sup>2\<^sup>4\<close>, written out so that it evaluates at once.\<close>

definition float_limit :: rat where
  "float_limit =
     179769313486231590772930519078902473361797697894230657273430081157732675805500963132708477322407536021120113879871393357658789768814416622492847430639474124377767893424865485276302219601246094119453082952085005768838150682342462881473913110540827237163350510684586298239947245938479716304835356329624224137216"

definition to_float :: "rat \<Rightarrow> rat option" where
  "to_float x =
     (if x = 0 then Some 0
      else
        (let e = max (expo \<bar>x\<bar>) (- 1022);
             q = 2 powi (e - 52);
             r = of_int (py_round (x / q)) * q
         in if float_limit \<le> \<bar>r\<bar> then None else Some r))"

text \<open>
  \<open>idx = round(degrees / 22.5) % 16\<close>. The operand becomes a float, the quotient is
  rounded to binary64, and \<open>round\<close> takes the nearest integer of that float. An
  operand beyond the float range ends in \<open>OverflowError\<close>, raised by the conversion
  of an \<open>int\<close> or by \<open>round\<close> on an infinity. Python's \<open>%\<close> with a positive divisor
  is the non-negative remainder, as \<open>mod\<close> on \<open>int\<close> is, so the index is always in
  range of the sixteen labels.
\<close>

definition direction_idx :: "rat \<Rightarrow> py_error + int" where
  "direction_idx degrees =
     (case to_float degrees of
        None \<Rightarrow> Inl OverflowError
      | Some x \<Rightarrow>
          (case to_float (x / 22.5) of
             None \<Rightarrow> Inl OverflowError
           | Some y \<Rightarrow> Inr (py_round y mod 16)))"

definition direction_to_text :: "rat \<Rightarrow> py_error + string" where
  "direction_to_text degrees =
     (case direction_idx degrees of
        Inl e \<Rightarrow> Inl e
      | Inr idx \<Rightarrow> Inr (directions ! nat idx))"

subsection \<open>Reconciling the two shapes of the current-conditions record\<close>

text \<open>
  \<open>current = data.get("current") or data.get("current_weather", {})\<close>, for the
  parsed response \<open>data\<close>, a dict.
\<close>

definition select_current :: "dict \<Rightarrow> json" where
  "select_current data =
     py_or (dict_get1 data ''current'') (dict_get data ''current_weather'' (JObj []))"

text \<open>
  The body of the \<open>if\<close> on a dict, statement by statement. Each assignment mutates
  \<open>current\<close>, so each later \<open>get\<close> reads the dict as updated so far.
\<close>

definition normalize :: "dict \<Rightarrow> py_error + dict" where
  "normalize current =
     (if dict_has current ''windspeed'' \<and> \<not> dict_has current ''wind_speed_10m'' then
        (case dict_index current ''windspeed'' of
           Inl e \<Rightarrow> Inl e
         | Inr ws \<Rightarrow>
             (let c1 = dict_set current ''wind_speed_10m'' ws;
                  c2 = dict_set c1 ''wind_direction_10m'' (dict_get c1 ''winddirection'' (JNum 0));
                  c3 = dict_set c2 ''temperature_2m'' (dict_get c2 ''temperature'' (JNum 0));
                  c4 = dict_set c3 ''weather_code'' (dict_get c3 ''weathercode'' (JNum 0));
                  c5 = dict_set c4 ''relative_humidity_2m'' JNull
              in Inr c5))
      else Inr current)"

text \<open>\<open>k in s\<close> for a string \<open>s\<close>: \<open>k\<close> occurs in \<open>s\<close> as a contiguous run.\<close>

fun starts_with :: "string \<Rightarrow> string \<Rightarrow> bool" where
  "starts_with [] s = True"
| "starts_with (c # k) [] = False"
| "starts_with (c # k) (c' # s) = (c = c' \<and> starts_with k s)"

fun occurs_in :: "string \<Rightarrow> string \<Rightarrow> bool" where
  "occurs_in k [] = starts_with k []"
| "occurs_in k (c # s) = (starts_with k (c # s) \<or> occurs_in k s)"

text \<open>
  The same lines on whatever value \<open>current\<close> holds. The membership tests work on a
  dict, a list and a string and raise \<open>TypeError\<close> on \<open>None\<close>, a number or a
  boolean; once the guard holds on a list or a string, \<open>current["windspeed"]\<close> raises
  \<open>TypeError\<close>, since neither is indexed by a string.
\<close>

fun normalize_current :: "json \<Rightarrow> py_error + json" where
  "normalize_current (JObj d) =
     (case normalize d of Inl e \<Rightarrow> Inl e | Inr d' \<Rightarrow> Inr (JObj d'))"
| "normalize_current (JArr xs) =
     (if JStr ''windspeed'' \<in> set xs \<and> JStr ''wind_speed_10m'' \<notin> set xs
      then Inl TypeError else Inr (JArr xs))"
| "normalize_current (JStr s) =
     (if occurs_in ''windspeed'' s \<and> \<not> occurs_in ''wind_speed_10m'' s
      then Inl TypeError else Inr (JStr s))"
| "normalize_current v = Inl TypeError"

text \<open>
  The reads of \<open>main\<close> that feed the sidebar and the metric cards:
  \<open>current.get("weather_code", 0)\<close>, \<open>current.get("temperature_2m", 0)\<close>,
  \<open>current.get("relative_humidity_2m") or 0\<close>, \<open>current.get("wind_speed_10m", 0)\<close>
  and \<open>current.get("wind_direction_10m", 0)\<close>. Only a dict has \<open>get\<close>.
\<close>

record current_view =
  weather_code :: json
  temp :: json
  humidity :: json
  wind_speed :: json
  wind_dir :: json

fun read_current :: "json \<Rightarrow> py_error + current_view" where
  "read_current (JObj d) =
     Inr \<lparr> weather_code = dict_get d ''weather_code'' (JNum 0),
           temp = dict_get d ''temperature_2m'' (JNum 0),
           humidity = py_or (dict_get1 d ''relative_humidity_2m'') (JNum 0),
           wind_speed = dict_get d ''wind_speed_10m'' (JNum 0),
           wind_dir = dict_get d ''wind_direction_10m'' (JNum 0) \<rparr>"
| "read_current v = Inl AttributeError"

text \<open>
  Selection, reconciliation and reads in sequence, as \<open>main\<close> runs them on the
  response \<open>data\<close>. \<open>main\<close> starts with \<open>if not data: return\<close>: on an empty response
  nothing is read and nothing is shown, which is the result \<open>None\<close> here.
\<close>

definition current_conditions :: "dict \<Rightarrow> py_error + current_view option" where
  "current_conditions data =
     (if data = [] then Inr None
      else
        (case normalize_current (select_current data) of
           Inl e \<Rightarrow> Inl e
         | Inr c \<Rightarrow>
             (case read_current c of
                Inl e \<Rightarrow> Inl e
              | Inr v \<Rightarrow> Inr (Some v))))"

subsection \<open>The hourly projection\<close>

text \<open>
  The hourly section is a record of arrays: a dict from field names to lists.
  \<open>hourly.get(k, dflt)\<close> on it:
\<close>

type_synonym hourly_section = "(string \<times> json list) list"

definition get_array :: "hourly_section \<Rightarrow> string \<Rightarrow> json list \<Rightarrow> json list" where
  "get_array h k dflt = (case map_of h k of Some xs \<Rightarrow> xs | None \<Rightarrow> dflt)"

text \<open>The five slices \<open>...[:48]\<close>.\<close>

definition hourly_times :: "hourly_section \<Rightarrow> json list" where
  "hourly_times hourly = take 48 (get_array hourly ''time'' [])"

definition hourly_temps :: "hourly_section \<Rightarrow> json list" where
  "hourly_temps hourly = take 48 (get_array hourly ''temperature_2m'' [])"

definition hourly_wind_speeds :: "hourly_section \<Rightarrow> json list" where
  "hourly_wind_speeds hourly = take 48 (get_array hourly ''wind_speed_10m'' [])"

definition hourly_wind_dirs :: "hourly_section \<Rightarrow> json list" where
  "hourly_wind_dirs hourly = take 48 (get_array hourly ''wind_direction_10m'' [])"

definition hourly_precip_probs :: "hourly_section \<Rightarrow> json list" where
  "hourly_precip_probs hourly =
     take 48 (get_array hourly ''precipitation_probability'' (replicate 48 JNull))"

text \<open>
  \<open>len(t)\<close> and the slice \<open>t[a:b]\<close> with \<open>0 \<le> a \<le> b\<close>, on any value. Only
  strings and lists can be sliced; every other value raises (a dict raises
  \<open>TypeError\<close> up to Python 3.11 and \<open>KeyError\<close> from 3.12 on, modelled as
  \<open>TypeError\<close>).
\<close>

fun py_len :: "json \<Rightarrow> py_error + nat" where
  "py_len (JStr s) = Inr (length s)"
| "py_len (JArr xs) = Inr (length xs)"
| "py_len (JObj d) = Inr (length d)"
| "py_len v = Inl TypeError"

fun py_slice :: "nat \<Rightarrow> nat \<Rightarrow> json \<Rightarrow> py_error + json" where
  "py_slice a b (JStr s) = Inr (JStr (take (b - a) (drop a s)))"
| "py_slice a b (JArr xs) = Inr (JArr (take (b - a) (drop a xs)))"
| "py_slice a b v = Inl TypeError"

text \<open>\<open>t[11:16] if len(t) > 10 else t\<close> and \<open>t[:10]\<close>, for one timestamp.\<close>

definition tijd_of :: "json \<Rightarrow> py_error + json" where
  "tijd_of t =
     (case py_len t of
        Inl e \<Rightarrow> Inl e
      | Inr n \<Rightarrow> if 10 < n then py_slice 11 16 t else Inr t)"

definition datum_of :: "json \<Rightarrow> py_error + json" where
  "datum_of t = py_slice 0 10 t"

text \<open>
  \<open>direction_to_text(d)\<close> for one element of the bearing array: the division
  needs a number (a boolean counts as 0 or 1).
\<close>

fun richting_of :: "json \<Rightarrow> py_error + json" where
  "richting_of (JNum r) =
     (case direction_to_text r of Inl e \<Rightarrow> Inl e | Inr s \<Rightarrow> Inr (JStr s))"
| "richting_of (JBool b) =
     (case direction_to_text (if b then 1 else 0) of Inl e \<Rightarrow> Inl e | Inr s \<Rightarrow> Inr (JStr s))"
| "richting_of v = Inl TypeError"

text \<open>A list comprehension whose body can raise: the first error ends it.\<close>

fun comprehension :: "('a \<Rightarrow> py_error + 'b) \<Rightarrow> 'a list \<Rightarrow> py_error + 'b list" where
  "comprehension f [] = Inr []"
| "comprehension f (x # xs) =
     (case f x of
        Inl e \<Rightarrow> Inl e
      | Inr y \<Rightarrow> (case comprehension f xs of Inl e \<Rightarrow> Inl e | Inr ys \<Rightarrow> Inr (y # ys)))"

text \<open>
  \<open>pd.DataFrame\<close> from a dict of lists: the columns as given when they all have one
  length, \<open>ValueError\<close> otherwise. The number of rows is that common length.
\<close>

type_synonym frame = "(string \<times> json list) list"

definition data_frame :: "(string \<times> json list) list \<Rightarrow> py_error + frame" where
  "data_frame cols =
     (if length (remdups (map (\<lambda>c. length (snd c)) cols)) \<le> 1 then Inr cols
      else Inl ValueError)"

definition nrows :: "frame \<Rightarrow> nat" where
  "nrows df = (case df of [] \<Rightarrow> 0 | c # cs \<Rightarrow> length (snd c))"

definition column :: "frame \<Rightarrow> string \<Rightarrow> json list" where
  "column df k = (case map_of df k of Some xs \<Rightarrow> xs | None \<Rightarrow> [])"

text \<open>\<open>df_hourly\<close>, the table of the first tab.\<close>

definition hourly_table :: "hourly_section \<Rightarrow> py_error + frame" where
  "hourly_table hourly =
     (let times = hourly_times hourly;
          temps = hourly_temps hourly;
          wind_speeds = hourly_wind_speeds hourly;
          wind_dirs = hourly_wind_dirs hourly;
          precip_probs = hourly_precip_probs hourly
      in case comprehension tijd_of times of
           Inl e \<Rightarrow> Inl e
         | Inr tijd \<Rightarrow>
             (case comprehension datum_of times of
                Inl e \<Rightarrow> Inl e
              | Inr datum \<Rightarrow>
                  (case comprehension richting_of wind_dirs of
                     Inl e \<Rightarrow> Inl e
                   | Inr richting \<Rightarrow>
                       data_frame
                         [(''Tijd'', tijd),
                          (''Datum'', datum),
                          (''Temp ('' @ [CHR 0xB0] @ ''C)'', temps),
                          (''Wind (km/h)'', wind_speeds),
                          (''Windrichting'', richting),
                          (''Neerslag %'', precip_probs)])))"

subsection \<open>The weather client and its freshness cache\<close>

text \<open>
  The body of \<open>fetch_weather_data\<close> makes one \<open>requests.get\<close> and returns the parsed
  response, or \<open>None\<close> after a \<open>RequestException\<close>. The network is a parameter:
  \<open>net k (lat, lon)\<close> is what the \<open>k\<close>-th request of the process returns, \<open>None\<close>
  standing for the exception path. The state counts the requests made.
\<close>

type_synonym network = "nat \<Rightarrow> rat \<times> rat \<Rightarrow> json option"

record world =
  calls :: nat
  cache :: "((rat \<times> rat) \<times> (nat \<times> json option)) list"

definition fetch_uncached :: "network \<Rightarrow> rat \<Rightarrow> rat \<Rightarrow> world \<Rightarrow> json option \<times> world" where
  "fetch_uncached net lat lon w = (net (calls w) (lat, lon), w\<lparr>calls := calls w + 1\<rparr>)"

text \<open>
  Modelled from the spec: the decorator \<open>st.cache_data(ttl=600)\<close> and the \<open>clear\<close>
  method it adds belong to the Streamlit library, which is not part of the sources.
  Following section 4.1 of the specification, the cache is keyed by the pair
  (latitude, longitude), an entry stored at second \<open>t\<close> is served while
  \<open>now < t + 600\<close> without running the body, and \<open>clear\<close> drops every entry. The
  clock is the explicit argument \<open>now\<close>, in seconds.
\<close>

definition ttl :: nat where
  "ttl = 600"

definition fresh :: "world \<Rightarrow> rat \<times> rat \<Rightarrow> nat \<Rightarrow> bool" where
  "fresh w key now =
     (case map_of (cache w) key of Some (t, v) \<Rightarrow> now < t + ttl | None \<Rightarrow> False)"

definition fetch_weather_data :: "network \<Rightarrow> nat \<Rightarrow> rat \<Rightarrow> rat \<Rightarrow> world \<Rightarrow> json option \<times> world" where
  "fetch_weather_data net now lat lon w =
     (if fresh w (lat, lon) now then
        (case map_of (cache w) (lat, lon) of
           Some (t, v) \<Rightarrow> (v, w)
         | None \<Rightarrow> (None, w))
      else
        (let (v, w') = fetch_uncached net lat lon w
         in (v, w'\<lparr>cache := ((lat, lon), (now, v)) # filter (\<lambda>e. fst e \<noteq> (lat, lon)) (cache w')\<rparr>)))"

definition clear :: "world \<Rightarrow> world" where
  "clear w = w\<lparr>cache := []\<rparr>"

subsection \<open>Shapes and sample inputs used in the statements\<close>

text \<open>The guard of the \<open>if\<close> in \<open>main\<close>: the record follows the legacy convention.\<close>

definition legacy :: "dict \<Rightarrow> bool" where
  "legacy d = (dict_has d ''windspeed'' \<and> \<not> dict_has d ''wind_speed_10m'')"

definition legacy_record :: dict where
  "legacy_record =
     [(''temperature'', JNum 12.5), (''windspeed'', JNum 20),
      (''winddirection'', JNum 90), (''weathercode'', JNum 3)]"

definition modern_record :: dict where
  "modern_record =
     [(''temperature_2m'', JNum 12.5), (''relative_humidity_2m'', JNum 0),
      (''wind_speed_10m'', JNum 20), (''wind_direction_10m'', JNum 90),
      (''weather_code'', JNum 3)]"

text \<open>
  Elements the comprehensions of the hourly table accept: a timestamp is a string,
  a bearing is a boolean or a number within the float range.
\<close>

fun is_str :: "json \<Rightarrow> bool" where
  "is_str (JStr s) = True"
| "is_str v = False"

fun is_num :: "json \<Rightarrow> bool" where
  "is_num (JNum r) = (to_float r \<noteq> None)"
| "is_num (JBool b) = True"
| "is_num v = False"

text \<open>
  The precipitation array fits a horizon of \<open>n\<close> entries when it is there with
  \<open>n\<close> entries, or is absent while the horizon reaches the 48 entries of the default.
\<close>

definition precip_ok :: "hourly_section \<Rightarrow> nat \<Rightarrow> bool" where
  "precip_ok h n =
     (case map_of h ''precipitation_probability'' of
        Some p \<Rightarrow> length p = n
      | None \<Rightarrow> 48 \<le> n)"

text \<open>
  An hourly section with horizon \<open>n\<close>: the four arrays the table always reads are
  there with \<open>n\<close> entries each, the precipitation array fits, the timestamps are
  strings and the bearings numbers.
\<close>

definition aligned :: "hourly_section \<Rightarrow> nat \<Rightarrow> bool" where
  "aligned h n =
     (map (\<lambda>k. map_option length (map_of h k))
        [''time'', ''temperature_2m'', ''wind_speed_10m'', ''wind_direction_10m'']
        = [Some n, Some n, Some n, Some n] \<and>
      precip_ok h n \<and>
      list_all is_str (get_array h ''time'' []) \<and>
      list_all is_num (get_array h ''wind_direction_10m'' []))"

definition sample_section :: "nat \<Rightarrow> hourly_section" where
  "sample_section n =
     [(''time'', replicate n (JStr ''2024-06-01T14:30'')),
      (''temperature_2m'', replicate n (JNum 12.5)),
      (''wind_speed_10m'', replicate n (JNum 20)),
      (''wind_direction_10m'', replicate n (JNum 90)),
      (''precipitation_probability'', replicate n (JNum 35))]"

definition sample_section_no_precip :: "nat \<Rightarrow> hourly_section" where
  "sample_section_no_precip n = butlast (sample_section n)"

text \<open>The coordinates of Venlo, a network that numbers its answers, and a cold start.\<close>

definition VENLO_LAT :: rat where
  "VENLO_LAT = 51.37"

definition VENLO_LON :: rat where
  "VENLO_LON = 6.1681"

definition counting_net :: network where
  "counting_net k key = Some (JNum (of_nat k))"

definition cold :: world where
  "cold = \<lparr>calls = 0, cache = []\<rparr>"

text \<open>A section whose single timestamp is a bare time of day.\<close>

definition clock_section :: hourly_section where
  "clock_section =
     [(''time'', [JStr ''14:30'']),
      (''temperature_2m'', [JNum 12.5]),
      (''wind_speed_10m'', [JNum 20]),
      (''wind_direction_10m'', [JNum 90]),
      (''precipitation_probability'', [JNum 35])]"

section \<open>Properties\<close>

subsection \<open>Dicts\<close>

lemma map_of_dict_set:
  "map_of (dict_set d k v) k' = (if k' = k then Some v else map_of d k')"
  by (induction d k v rule: dict_set.induct) auto

lemma dict_has_dict_set: "dict_has (dict_set d k v) k' = (k' = k \<or> dict_has d k')"
  by (simp add: dict_has_def map_of_dict_set)

lemma dict_get_dict_set:
  "dict_get (dict_set d k v) k' dflt = (if k' = k then v else dict_get d k' dflt)"
  by (simp add: dict_get_def map_of_dict_set)


lemma dict_index_present:
  "dict_has d k \<Longrightarrow> \<exists>v. dict_index d k = Inr v \<and> map_of d k = Some v"
  by (auto simp: dict_index_def dict_has_def)

subsection \<open>The weather client\<close>

text \<open>
  Claim C1. A fetch that goes to the network at second \<open>t1\<close> (no fresh entry for the
  coordinates) returns what the network answered and counts one request; a second
  fetch for the same coordinates at any \<open>t2\<close> with \<open>t1 \<le> t2 < t1 + 600\<close> returns the
  same structure and leaves the state, the request counter included, as it was. Any
  fetch that finds a fresh entry leaves the state unchanged. After \<open>clear\<close> a fetch
  makes a new request and stores its answer, whatever the time.
\<close>

theorem cache_window:
  "(\<not> fresh w (lat, lon) t1 \<and> t1 \<le> t2 \<and> t2 < t1 + ttl \<longrightarrow>
      (case fetch_weather_data net t1 lat lon w of
         (v1, w1) \<Rightarrow>
           v1 = net (calls w) (lat, lon) \<and> calls w1 = calls w + 1 \<and>
           fetch_weather_data net t2 lat lon w1 = (v1, w1))) \<and>
   (fresh w (lat, lon) t1 \<longrightarrow> snd (fetch_weather_data net t1 lat lon w) = w) \<and>
   fetch_weather_data net t1 lat lon (clear w) =
     (net (calls w) (lat, lon),
      \<lparr>calls = calls w + 1, cache = [((lat, lon), (t1, net (calls w) (lat, lon)))]\<rparr>)"
  by (auto simp: fetch_weather_data_def fresh_def fetch_uncached_def clear_def ttl_def
      split: option.splits prod.splits)

theorem cache_window_witness:
  "\<not> fresh cold (VENLO_LAT, VENLO_LON) 0 \<and> (0::nat) \<le> 599 \<and> 599 < 0 + ttl \<and>
   (\<exists>w1. fetch_weather_data counting_net 0 VENLO_LAT VENLO_LON cold = (Some (JNum 0), w1) \<and>
      calls w1 = 1 \<and>
      fetch_weather_data counting_net 599 VENLO_LAT VENLO_LON w1 = (Some (JNum 0), w1) \<and>
      fst (fetch_weather_data counting_net 599 VENLO_LAT VENLO_LON (clear w1)) =
        Some (JNum 1) \<and>
      calls (snd (fetch_weather_data counting_net 599 VENLO_LAT VENLO_LON (clear w1))) = 2)"
proof -
  have h: "\<not> fresh cold (VENLO_LAT, VENLO_LON) 0 \<and> (0::nat) \<le> 599 \<and> 599 < 0 + ttl"
    by (simp add: fresh_def cold_def ttl_def)
  obtain v1 w1 where f: "fetch_weather_data counting_net 0 VENLO_LAT VENLO_LON cold = (v1, w1)"
    by (cases "fetch_weather_data counting_net 0 VENLO_LAT VENLO_LON cold") blast
  from h f cache_window [of cold VENLO_LAT VENLO_LON 0 599 counting_net]
  have a: "v1 = Some (JNum 0)" "calls w1 = 1"
    "fetch_weather_data counting_net 599 VENLO_LAT VENLO_LON w1 = (v1, w1)"
    by (simp_all add: counting_net_def cold_def)
  from a(2) cache_window [of w1 VENLO_LAT VENLO_LON 599 599 counting_net]
  have "fetch_weather_data counting_net 599 VENLO_LAT VENLO_LON (clear w1) =
     (Some (JNum 1), \<lparr>calls = 2, cache = [((VENLO_LAT, VENLO_LON), (599, Some (JNum 1)))]\<rparr>)"
    by (simp add: counting_net_def)
  with h f a show ?thesis by simp
qed

subsection \<open>Lookup tables\<close>

lemma codes_keys:
  "map fst codes =
     [0, 1, 2, 3, 45, 48, 51, 53, 55, 61, 63, 65, 66, 67, 71, 73, 75, 77,
      80, 81, 82, 85, 86, 95, 96, 99]"
  by (simp add: codes_def)

lemma codes_glyphs: "(k, g) \<in> set codes \<Longrightarrow> g \<noteq> fallback_glyph"
  by (auto simp: codes_def fallback_glyph_def)

lemma emoji_known:
  assumes "code \<in> set (map fst codes)"
  shows "get_weather_emoji code \<noteq> fallback_glyph"
proof -
  from assms obtain g where g: "map_of codes code = Some g"
    by (metis map_of_eq_None_iff not_Some_eq set_map)
  then have "(code, g) \<in> set codes" by (rule map_of_SomeD)
  then have "g \<noteq> fallback_glyph" by (rule codes_glyphs)
  with g show ?thesis by (simp add: get_weather_emoji_def)
qed

lemma emoji_unknown:
  assumes "code \<notin> set (map fst codes)"
  shows "get_weather_emoji code = fallback_glyph"
proof -
  from assms have "map_of codes code = None" by (simp add: map_of_eq_None_iff)
  then show ?thesis by (simp add: get_weather_emoji_def)
qed

text \<open>Rounding in each half of a unit interval, and at the tie.\<close>

lemma py_round_upper_half:
  assumes "of_int n + 1 / 2 < x" and "x \<le> of_int n + 1"
  shows "py_round x = n + 1"
proof (cases "x = of_int n + 1")
  case True
  then have "\<lfloor>x\<rfloor> = n + 1" by simp
  with True show ?thesis by (simp add: py_round_def)
next
  case False
  with assms have "\<lfloor>x\<rfloor> = n" by (intro floor_unique) auto
  with assms show ?thesis by (simp add: py_round_def Let_def)
qed

lemma py_round_tie:
  "py_round (of_int n + 1 / 2) = (if even n then n else n + 1)"
proof -
  have "\<lfloor>of_int n + 1 / 2 :: rat\<rfloor> = n" by (intro floor_unique) auto
  then show ?thesis by (simp add: py_round_def Let_def)
qed

lemma py_round_16:
  assumes "31 / 2 \<le> x" and "x \<le> 16"
  shows "py_round x = 16"
proof (cases "x = 31 / 2")
  case True
  have "py_round (of_int 15 + 1 / 2) = 16" by (simp only: py_round_tie) simp
  moreover have "x = of_int 15 + 1 / 2" unfolding True by simp
  ultimately show ?thesis by (simp only:)
next
  case False
  with assms have "of_int 15 + 1 / 2 < x" "x \<le> of_int 15 + 1" by simp_all
  then show ?thesis using py_round_upper_half [of 15 x] by simp
qed

text \<open>Rounding is monotone and leaves integers alone.\<close>

lemma float_limit_pow: "float_limit = 2 powi 1024"
  by (simp add: float_limit_def power_int_def)

lemma py_round_of_int: "py_round (of_int n) = n"
  by (simp add: py_round_def)

lemma py_round_cases: "py_round x = \<lfloor>x\<rfloor> \<or> py_round x = \<lfloor>x\<rfloor> + 1"
  by (simp add: py_round_def Let_def)

lemma py_round_mono:
  assumes "x \<le> y"
  shows "py_round x \<le> py_round y"
proof (cases "\<lfloor>x\<rfloor> = \<lfloor>y\<rfloor>")
  case True
  with assms show ?thesis by (auto simp: py_round_def Let_def)
next
  case False
  with assms have "\<lfloor>x\<rfloor> + 1 \<le> \<lfloor>y\<rfloor>" using floor_mono [of x y] by linarith
  moreover have "py_round x \<le> \<lfloor>x\<rfloor> + 1" using py_round_cases [of x] by linarith
  moreover have "\<lfloor>y\<rfloor> \<le> py_round y" using py_round_cases [of y] by linarith
  ultimately show ?thesis by linarith
qed

lemma pow2_pos: "0 < (2::rat) powi e"
  by (simp add: power_int_def)

lemma pow2_nat: "0 \<le> n \<Longrightarrow> (2::rat) powi n = 2 ^ nat n"
  by (simp add: power_int_def)

lemma pow2_strict_mono: "a < b \<Longrightarrow> (2::rat) powi a < 2 powi b"
  by (simp add: power_int_strict_increasing)

lemma pow2_mono: "a \<le> b \<Longrightarrow> (2::rat) powi a \<le> 2 powi b"
  by (simp add: power_int_increasing)

lemma bitlen_pow2_bounds:
  assumes "0 < p"
  shows "(2::rat) powi (bitlen p - 1) \<le> of_int p" and "of_int p < (2::rat) powi (bitlen p)"
proof -
  from bitlen_bounds [OF assms] have b: "2 ^ nat (bitlen p - 1) \<le> p" "p < 2 ^ nat (bitlen p)"
    by simp_all
  from assms have n: "1 \<le> bitlen p" by (simp add: bitlen_alt_def)
  from b(1) have "of_int (2 ^ nat (bitlen p - 1)) \<le> (of_int p :: rat)" by (simp only: of_int_le_iff)
  with n show "(2::rat) powi (bitlen p - 1) \<le> of_int p" by (simp add: pow2_nat)
  from b(2) have "(of_int p :: rat) < of_int (2 ^ nat (bitlen p))" by (simp only: of_int_less_iff)
  with n show "of_int p < (2::rat) powi (bitlen p)" by (simp add: pow2_nat)
qed

lemma expo_bounds:
  assumes "0 < x"
  shows "2 powi (expo x) \<le> x \<and> x < 2 powi (expo x + 1)"
proof -
  obtain p q where pq: "quotient_of x = (p, q)" by (cases "quotient_of x")
  then have q: "0 < q" by (rule quotient_of_denom_pos)
  from pq have x: "x = of_int p / of_int q" by (rule quotient_of_div)
  with assms q have p: "0 < p" by (simp add: zero_less_divide_iff)
  let ?e = "bitlen p - bitlen q"
  note P = bitlen_pow2_bounds [OF p] and Q = bitlen_pow2_bounds [OF q]
  have "x < 2 powi (bitlen p) / 2 powi (bitlen q - 1)"
    unfolding x using P Q q p by (intro frac_less) (auto simp: pow2_pos less_imp_le)
  also have "\<dots> = 2 powi (?e + 1)"
    by (simp add: power_int_diff [symmetric] algebra_simps)
  finally have up: "x < 2 powi (?e + 1)" .
  have "2 powi (bitlen p - 1) / 2 powi (bitlen q) \<le> x"
    unfolding x using P Q q p by (intro frac_le) (auto simp: pow2_pos less_imp_le)
  also have "2 powi (bitlen p - 1) / 2 powi (bitlen q) = (2::rat) powi (?e - 1)"
    by (simp add: power_int_diff [symmetric] algebra_simps)
  finally have lo: "2 powi (?e - 1) \<le> x" .
  show ?thesis
  proof (cases "2 powi ?e \<le> x")
    case True
    with up show ?thesis by (simp add: expo_def pq)
  next
    case False
    with lo show ?thesis by (simp add: expo_def pq)
  qed
qed

lemma expo_eq:
  assumes "2 powi e \<le> x" and "x < 2 powi (e + 1)"
  shows "expo x = e"
proof -
  from assms(1) have "0 < x" using pow2_pos [of e] by linarith
  from expo_bounds [OF this] have b: "2 powi (expo x) \<le> x" "x < 2 powi (expo x + 1)" by simp_all
  have "\<not> expo x < e"
  proof
    assume "expo x < e"
    then have "(2::rat) powi (expo x + 1) \<le> 2 powi e" by (intro pow2_mono) simp
    with b(2) assms(1) show False by linarith
  qed
  moreover have "\<not> e < expo x"
  proof
    assume "e < expo x"
    then have "(2::rat) powi (e + 1) \<le> 2 powi (expo x)" by (intro pow2_mono) simp
    with b(1) assms(2) show False by linarith
  qed
  ultimately show ?thesis by linarith
qed

lemma py_round_0: "py_round 0 = 0"
  by (simp add: py_round_def)

lemma to_float_binade:
  assumes "2 powi e \<le> x" and "x < 2 powi (e + 1)" and "- 1022 \<le> e"
  shows "to_float x =
    (if float_limit \<le> \<bar>rat_of_int (py_round (x / 2 powi (e - 52))) * 2 powi (e - 52)\<bar>
     then None else Some (rat_of_int (py_round (x / 2 powi (e - 52))) * 2 powi (e - 52)))"
proof -
  from assms(1) have x: "0 < x" using pow2_pos [of e] by linarith
  from assms have "expo x = e" by (intro expo_eq)
  with x assms(3) show ?thesis by (simp add: to_float_def Let_def max_def)
qed

lemma to_float_between:
  assumes "2 powi e \<le> x" and "x < 2 powi (e + 1)" and "- 1022 \<le> e"
    and "of_int a * 2 powi (e - 52) \<le> x" and "x \<le> of_int b * 2 powi (e - 52)"
    and "of_int b * 2 powi (e - 52) < float_limit"
  shows "\<exists>r. to_float x = Some r \<and> of_int a * 2 powi (e - 52) \<le> r \<and> r \<le> of_int b * 2 powi (e - 52)"
proof -
  let ?q = "(2::rat) powi (e - 52)"
  let ?m = "py_round (x / ?q)"
  have q: "0 < ?q" by (rule pow2_pos)
  from assms(1) have x: "0 < x" using pow2_pos [of e] by linarith
  from assms(4) q have "of_int a \<le> x / ?q" by (simp add: pos_le_divide_eq)
  then have "py_round (of_int a) \<le> ?m" by (rule py_round_mono)
  then have a: "a \<le> ?m" by (simp add: py_round_of_int)
  from assms(5) q have "x / ?q \<le> of_int b" by (simp add: pos_divide_le_eq)
  then have "?m \<le> py_round (of_int b)" by (rule py_round_mono)
  then have b: "?m \<le> b" by (simp add: py_round_of_int)
  from x q have "0 \<le> x / ?q" by simp
  then have "py_round 0 \<le> ?m" by (rule py_round_mono)
  then have m0: "0 \<le> ?m" by (simp add: py_round_0)
  from a q have lo: "of_int a * ?q \<le> of_int ?m * ?q" by simp
  from b q have hi: "of_int ?m * ?q \<le> of_int b * ?q" by simp
  from m0 q have "0 \<le> of_int ?m * ?q" by simp
  then have "\<bar>of_int ?m * ?q\<bar> = of_int ?m * ?q" by simp
  with hi assms(6) have "\<not> float_limit \<le> \<bar>of_int ?m * ?q\<bar>" by linarith
  then have "to_float x = Some (of_int ?m * ?q)"
    using to_float_binade [OF assms(1-3)] by simp
  with lo hi show ?thesis by blast
qed

lemma to_float_bearing:
  assumes "348.75 \<le> b" and "b \<le> 360"
  shows "\<exists>r. to_float b = Some r \<and> 348.75 \<le> r \<and> r \<le> 360"
proof -
  have e: "(2::rat) powi 8 = 256" "(2::rat) powi (8 + 1) = 512" by (simp_all add: power_int_def)
  have q: "rat_of_int (1395 * 2 ^ 42) * 2 powi (8 - 52) = 348.75"
    "rat_of_int (360 * 2 ^ 44) * 2 powi (8 - 52) = 360"
    by code_simp+
  have "\<exists>r. to_float b = Some r \<and> of_int (1395 * 2 ^ 42) * 2 powi (8 - 52) \<le> r \<and>
      r \<le> of_int (360 * 2 ^ 44) * 2 powi (8 - 52)"
  proof (rule to_float_between)
    show "2 powi 8 \<le> b" "b < 2 powi (8 + 1)" using assms unfolding e by simp_all
    show "rat_of_int (1395 * 2 ^ 42) * 2 powi (8 - 52) \<le> b"
      "b \<le> rat_of_int (360 * 2 ^ 44) * 2 powi (8 - 52)"
      using assms unfolding q by simp_all
    show "rat_of_int (360 * 2 ^ 44) * 2 powi (8 - 52) < float_limit"
      unfolding q float_limit_pow by (simp add: power_int_def)
  qed simp
  then show ?thesis unfolding q .
qed

lemma to_float_quotient:
  assumes "31 / 2 \<le> y" and "y \<le> 16"
  shows "\<exists>z. to_float y = Some z \<and> 31 / 2 \<le> z \<and> z \<le> 16"
proof (cases "y = 16")
  case True
  have "to_float 16 = Some 16" by code_simp
  with True show ?thesis by simp
next
  case False
  have e: "(2::rat) powi 3 = 8" "(2::rat) powi (3 + 1) = 16" by (simp_all add: power_int_def)
  have q: "rat_of_int (31 * 2 ^ 48) * 2 powi (3 - 52) = 31 / 2"
    "rat_of_int (2 ^ 53) * 2 powi (3 - 52) = 16"
    by code_simp+
  have "\<exists>z. to_float y = Some z \<and> of_int (31 * 2 ^ 48) * 2 powi (3 - 52) \<le> z \<and>
      z \<le> of_int (2 ^ 53) * 2 powi (3 - 52)"
  proof (rule to_float_between)
    show "2 powi 3 \<le> y" "y < 2 powi (3 + 1)" using assms False unfolding e by simp_all
    show "rat_of_int (31 * 2 ^ 48) * 2 powi (3 - 52) \<le> y"
      "y \<le> rat_of_int (2 ^ 53) * 2 powi (3 - 52)"
      using assms unfolding q by simp_all
    show "rat_of_int (2 ^ 53) * 2 powi (3 - 52) < float_limit"
      unfolding q float_limit_pow by (simp add: power_int_def)
  qed simp
  then show ?thesis unfolding q .
qed

lemma wrap_north:
  assumes "348.75 \<le> b" and "b \<le> 360"
  shows "direction_to_text b = Inr ''N''"
proof -
  from to_float_bearing [OF assms] obtain r where
    r: "to_float b = Some r" "348.75 \<le> r" "r \<le> 360" by blast
  then have "31 / 2 \<le> r / 22.5" "r / 22.5 \<le> 16" by (simp_all add: field_simps)
  from to_float_quotient [OF this] obtain z where
    z: "to_float (r / 22.5) = Some z" "31 / 2 \<le> z" "z \<le> 16" by blast
  then have "py_round z = 16" by (intro py_round_16)
  with r(1) z(1) have "direction_idx b = Inr 0" by (simp add: direction_idx_def)
  then show ?thesis by (simp add: direction_to_text_def directions_def)
qed

text \<open>
  Claim C2, as amended. The bearing 11.24 gives the first compass point \<open>N\<close> and
  11.26 the second, \<open>NNO\<close>; the exact boundary 11.25 gives the first point \<open>N\<close>,
  because the quotient 0.5 is a tie and a tie goes to the even index; every bearing
  from 348.75 up to 360 gives \<open>N\<close>.
\<close>

theorem direction_to_text_boundaries:
  "direction_to_text 11.24 = Inr ''N'' \<and>
   direction_to_text 11.26 = Inr ''NNO'' \<and>
   direction_to_text 11.25 = Inr ''N'' \<and>
   (\<forall>b. 348.75 \<le> b \<and> b \<le> 360 \<longrightarrow> direction_to_text b = Inr ''N'')"
proof -
  have "direction_to_text 11.24 = Inr ''N''" by code_simp
  moreover have "direction_to_text 11.26 = Inr ''NNO''" by code_simp
  moreover have "direction_to_text 11.25 = Inr ''N''" by code_simp
  ultimately show ?thesis using wrap_north by blast
qed

theorem direction_to_text_boundaries_witness:
  "(348.75::rat) \<le> 350 \<and> (350::rat) \<le> 360 \<and> direction_to_text 350 = Inr ''N'' \<and>
   direction_to_text 348.75 = Inr ''N'' \<and> direction_to_text 360 = Inr ''N''"
proof -
  have "(348.75::rat) \<le> 350 \<and> (350::rat) \<le> 360" by simp
  moreover have "(348.75::rat) \<le> 348.75 \<and> (348.75::rat) \<le> 360" by simp
  moreover have "(348.75::rat) \<le> 360 \<and> (360::rat) \<le> 360" by simp
  ultimately show ?thesis using direction_to_text_boundaries by blast
qed

text \<open>
  Claim C2 as stated fails at the exact boundary: 11.25 is labelled with the first
  entry of \<open>directions\<close>, not the second.
\<close>

theorem direction_to_text_tie_counterexample:
  "direction_to_text 11.25 = Inr (directions ! 0) \<and>
   direction_to_text 11.25 \<noteq> Inr (directions ! 1)"
  by code_simp

text \<open>Every float has a quotient by 22.5 that is a float again.\<close>

lemma to_float_limit:
  assumes "to_float x = Some r"
  shows "\<bar>r\<bar> < float_limit"
proof (cases "x = 0")
  case True
  with assms have "r = 0" by (simp add: to_float_def)
  then show ?thesis by (simp add: float_limit_pow pow2_pos)
next
  case False
  with assms show ?thesis
    by (auto simp: to_float_def Let_def split: if_splits)
qed

lemma to_float_small:
  assumes "\<bar>y\<bar> < 2 powi 1023"
  shows "\<exists>z. to_float y = Some z"
proof (cases "y = 0")
  case True
  then show ?thesis by (simp add: to_float_def)
next
  case False
  then have pos: "0 < \<bar>y\<bar>" by simp
  define e where "e = max (expo \<bar>y\<bar>) (- 1022)"
  define q :: rat where "q = 2 powi (e - 52)"
  define m where "m = py_round (y / q)"
  have q: "0 < q" unfolding q_def by (rule pow2_pos)
  from expo_bounds [OF pos] have b: "2 powi (expo \<bar>y\<bar>) \<le> \<bar>y\<bar>" "\<bar>y\<bar> < 2 powi (expo \<bar>y\<bar> + 1)"
    by simp_all
  have "expo \<bar>y\<bar> < 1023"
  proof (rule ccontr)
    assume "\<not> expo \<bar>y\<bar> < 1023"
    then have "(2::rat) powi 1023 \<le> 2 powi (expo \<bar>y\<bar>)" by (intro pow2_mono) simp
    with b(1) assms show False by linarith
  qed
  then have e: "e \<le> 1022" "expo \<bar>y\<bar> \<le> e" by (simp_all add: e_def)
  have s: "(2::rat) powi (e + 1) = of_int (2 ^ 53) * q"
  proof -
    have "e + 1 = 53 + (e - 52)" by simp
    then have "(2::rat) powi (e + 1) = 2 powi (53 + (e - 52))" by (simp only:)
    also have "\<dots> = 2 powi 53 * 2 powi (e - 52)" by (rule power_int_add) simp
    finally show ?thesis by (simp add: q_def power_int_def)
  qed
  have "(2::rat) powi (expo \<bar>y\<bar> + 1) \<le> 2 powi (e + 1)" using e(2) by (intro pow2_mono) simp
  with b(2) have "\<bar>y\<bar> < 2 powi (e + 1)" by linarith
  then have y: "\<bar>y\<bar> < of_int (2 ^ 53) * q" unfolding s .
  with q have "y / q \<le> of_int (2 ^ 53)" "of_int (- (2 ^ 53)) \<le> y / q"
    by (simp_all add: pos_divide_le_eq pos_le_divide_eq abs_less_iff)
  then have "m \<le> 2 ^ 53" "- (2 ^ 53) \<le> m"
    unfolding m_def using py_round_mono [of "y / q" "of_int (2 ^ 53)"]
      py_round_mono [of "of_int (- (2 ^ 53))" "y / q"]
    by (simp_all only: py_round_of_int)
  then have "\<bar>m\<bar> \<le> 2 ^ 53" by linarith
  then have "\<bar>rat_of_int m\<bar> \<le> of_int (2 ^ 53)" by (metis of_int_abs of_int_le_iff)
  with q have "\<bar>of_int m * q\<bar> \<le> of_int (2 ^ 53) * q"
    by (simp add: abs_mult)
  also have "of_int (2 ^ 53) * q = 2 powi (e + 1)" by (simp only: s)
  also have "\<dots> \<le> 2 powi 1023" using e(1) by (intro pow2_mono) simp
  also have "\<dots> < float_limit" unfolding float_limit_pow by (intro pow2_strict_mono) simp
  finally have "\<not> float_limit \<le> \<bar>of_int m * q\<bar>" by linarith
  with False show ?thesis
    unfolding to_float_def Let_def e_def [symmetric] q_def [symmetric] m_def [symmetric]
    by simp
qed

lemma to_float_overflow:
  assumes "float_limit \<le> x"
  shows "to_float x = None"
proof -
  from assms have pos: "0 < x" using pow2_pos [of 1024] by (simp add: float_limit_pow)
  from expo_bounds [OF pos] have b: "2 powi (expo x) \<le> x" "x < 2 powi (expo x + 1)"
    by simp_all
  have e: "1024 \<le> expo x"
  proof (rule ccontr)
    assume "\<not> 1024 \<le> expo x"
    then have "(2::rat) powi (expo x + 1) \<le> 2 powi 1024" by (intro pow2_mono) simp
    with b(2) assms show False by (simp add: float_limit_pow)
  qed
  define q :: rat where "q = 2 powi (expo x - 52)"
  have q: "0 < q" unfolding q_def by (rule pow2_pos)
  have s: "(2::rat) powi (expo x) = of_int (2 ^ 52) * q"
  proof -
    have "expo x = 52 + (expo x - 52)" by simp
    then have "(2::rat) powi (expo x) = 2 powi (52 + (expo x - 52))" by (simp only:)
    also have "\<dots> = 2 powi 52 * 2 powi (expo x - 52)" by (rule power_int_add) simp
    finally show ?thesis by (simp add: q_def power_int_def)
  qed
  with b(1) q have "of_int (2 ^ 52) \<le> x / q" by (simp add: pos_le_divide_eq)
  then have "py_round (of_int (2 ^ 52)) \<le> py_round (x / q)" by (rule py_round_mono)
  then have "2 ^ 52 \<le> py_round (x / q)" by (simp only: py_round_of_int)
  then have "rat_of_int (2 ^ 52) \<le> of_int (py_round (x / q))" by (simp only: of_int_le_iff)
  with q have "of_int (2 ^ 52) * q \<le> of_int (py_round (x / q)) * q" by simp
  moreover have "float_limit \<le> 2 powi (expo x)"
    unfolding float_limit_pow using e by (intro pow2_mono)
  ultimately have "float_limit \<le> \<bar>of_int (py_round (x / q)) * q\<bar>"
    unfolding s by linarith
  with pos e show ?thesis
    by (simp add: to_float_def Let_def max_def q_def [symmetric])
qed

lemma direction_idx_float:
  assumes "to_float b = Some r"
  shows "\<exists>i. direction_idx b = Inr i \<and> 0 \<le> i \<and> i < 16"
proof -
  from to_float_limit [OF assms] have "\<bar>r\<bar> < 2 powi 1024" by (simp add: float_limit_pow)
  moreover have "(2::rat) powi 1024 = 2 * 2 powi 1023"
    using power_int_add_1' [of "2::rat" 1023] by simp
  ultimately have "\<bar>r / 22.5\<bar> < 2 powi 1023" using pow2_pos [of 1023]
    by (simp add: abs_less_iff field_simps)
  from to_float_small [OF this] obtain z where "to_float (r / 22.5) = Some z" ..
  with assms show ?thesis by (simp add: direction_idx_def)
qed

lemma direction_idx_range: "direction_idx b = Inr i \<Longrightarrow> 0 \<le> i \<and> i < 16"
  by (auto simp: direction_idx_def split: option.splits)

text \<open>
  Whenever a label is returned it is one of the sixteen entries of \<open>directions\<close>.
  A label is returned exactly for the bearings within the float range; the others
  end in \<open>OverflowError\<close>.
\<close>

theorem direction_to_text_range:
  "(\<forall>s. direction_to_text b = Inr s \<longrightarrow> s \<in> set directions) \<and> length directions = 16 \<and>
   (to_float b \<noteq> None \<longrightarrow> (\<exists>s. direction_to_text b = Inr s)) \<and>
   (to_float b = None \<longrightarrow> direction_to_text b = Inl OverflowError)"
proof -
  have l: "length directions = 16" by (simp add: directions_def)
  have "s \<in> set directions" if "direction_to_text b = Inr s" for s
  proof -
    from that obtain i where i: "direction_idx b = Inr i" "s = directions ! nat i"
      by (auto simp: direction_to_text_def split: sum.splits)
    from direction_idx_range [OF i(1)] have "nat i < 16" by linarith
    with l have "nat i < length directions" by simp
    then show ?thesis unfolding i(2) by (rule nth_mem)
  qed
  moreover have "\<exists>s. direction_to_text b = Inr s" if "to_float b \<noteq> None"
  proof -
    from that obtain r where "to_float b = Some r" by blast
    from direction_idx_float [OF this] show ?thesis by (auto simp: direction_to_text_def)
  qed
  moreover have "direction_to_text b = Inl OverflowError" if "to_float b = None"
    using that by (simp add: direction_to_text_def direction_idx_def)
  ultimately show ?thesis using l by blast
qed

theorem direction_to_text_range_witness:
  "to_float 90 \<noteq> None \<and> direction_to_text 90 = Inr ''O'' \<and> ''O'' \<in> set directions \<and>
   to_float (2 ^ 1024) = None \<and> direction_to_text (2 ^ 1024) = Inl OverflowError"
proof -
  have a: "to_float 90 = Some 90" "direction_to_text 90 = Inr ''O''"
    by code_simp+
  have "float_limit \<le> 2 ^ 1024" by (simp add: float_limit_pow power_int_def)
  then have b: "to_float (2 ^ 1024) = None" by (rule to_float_overflow)
  from a b direction_to_text_range [of 90] direction_to_text_range [of "2 ^ 1024"]
  show ?thesis by auto
qed

text \<open>
  Claim C8. \<open>get_weather_emoji\<close> is defined on every integer; on each of the 26 known
  codes it returns a glyph other than the fallback, and on every other integer the
  fallback.
\<close>

theorem get_weather_emoji_total:
  "(code \<in> set [0, 1, 2, 3, 45, 48, 51, 53, 55, 61, 63, 65, 66, 67, 71, 73, 75, 77,
                80, 81, 82, 85, 86, 95, 96, 99] \<longrightarrow>
      get_weather_emoji code \<noteq> fallback_glyph) \<and>
   (code \<notin> set [0, 1, 2, 3, 45, 48, 51, 53, 55, 61, 63, 65, 66, 67, 71, 73, 75, 77,
                80, 81, 82, 85, 86, 95, 96, 99] \<longrightarrow>
      get_weather_emoji code = fallback_glyph)"
  using emoji_known [of code] emoji_unknown [of code] unfolding codes_keys by blast

theorem get_weather_emoji_total_witness:
  "get_weather_emoji 3 = [0x2601, 0xFE0F] \<and> get_weather_emoji 3 \<noteq> fallback_glyph \<and>
   get_weather_emoji 2 \<noteq> fallback_glyph \<and>
   get_weather_emoji 4 = fallback_glyph \<and> get_weather_emoji (- 1) = fallback_glyph"
  using get_weather_emoji_total [of 3] get_weather_emoji_total [of 4]
    get_weather_emoji_total [of 2] get_weather_emoji_total [of "- 1"]
  by (simp add: get_weather_emoji_def codes_def)

subsection \<open>The current-conditions record\<close>

lemma normalize_modern: "\<not> legacy d \<Longrightarrow> normalize d = Inr d"
  by (auto simp: normalize_def legacy_def)

lemma normalize_legacy:
  assumes "legacy d"
  shows "\<exists>ws. map_of d ''windspeed'' = Some ws \<and>
     normalize d =
       Inr (dict_set (dict_set (dict_set (dict_set (dict_set d
              ''wind_speed_10m'' ws)
              ''wind_direction_10m'' (dict_get d ''winddirection'' (JNum 0)))
              ''temperature_2m'' (dict_get d ''temperature'' (JNum 0)))
              ''weather_code'' (dict_get d ''weathercode'' (JNum 0)))
              ''relative_humidity_2m'' JNull)"
proof -
  from assms have "dict_has d ''windspeed''" by (simp add: legacy_def)
  then obtain ws where ws: "dict_index d ''windspeed'' = Inr ws" "map_of d ''windspeed'' = Some ws"
    using dict_index_present by blast
  with assms show ?thesis
    by (simp add: normalize_def legacy_def Let_def dict_get_dict_set)
qed

lemma normalize_total: "\<exists>d'. normalize d = Inr d'"
  using normalize_modern [of d] normalize_legacy [of d] by (cases "legacy d") auto

lemma normalize_has_modern:
  assumes "normalize d = Inr d'"
  shows "\<not> legacy d'"
proof (cases "legacy d")
  case False
  with assms show ?thesis by (simp add: normalize_modern)
next
  case True
  from normalize_legacy [OF True] assms show ?thesis
    by (auto simp: legacy_def dict_has_dict_set)
qed

text \<open>
  The reconciliation is total on records only: a response whose
  \<open>current_weather\<close> is \<open>null\<close> selects \<open>None\<close>, and the membership test raises.
\<close>

lemma current_null_fails:
  "current_conditions [(''current_weather'', JNull)] = Inl TypeError"
  by (simp add: current_conditions_def select_current_def dict_get1_def dict_get_def py_or_def)

text \<open>
  The guard looks at \<open>windspeed\<close> and \<open>wind_speed_10m\<close> only. A record that mixes
  the conventions, with a modern temperature beside a legacy wind speed, takes the
  legacy branch, and its \<open>temperature_2m\<close> is overwritten by the default 0.
\<close>

theorem mixed_record_overwritten:
  "normalize_current (JObj [(''temperature_2m'', JNum 12.5), (''windspeed'', JNum 20)]) =
     Inr (JObj [(''temperature_2m'', JNum 0), (''windspeed'', JNum 20),
                (''wind_speed_10m'', JNum 20), (''wind_direction_10m'', JNum 0),
                (''weather_code'', JNum 0), (''relative_humidity_2m'', JNull)])"
  by (simp add: normalize_def dict_has_def dict_index_def dict_get_def)

text \<open>
  Claim C4. The legacy record with temperature 12.5, windspeed 20, winddirection 90 and
  weathercode 3 is reconciled without error into the record that keeps the four
  legacy fields and gains \<open>wind_speed_10m = 20\<close>, \<open>wind_direction_10m = 90\<close>,
  \<open>temperature_2m = 12.5\<close>, \<open>weather_code = 3\<close> and \<open>relative_humidity_2m = None\<close>,
  the marker of an unknown humidity.
\<close>

theorem normalize_legacy_example:
  "normalize_current (JObj legacy_record) =
     Inr (JObj (legacy_record @
       [(''wind_speed_10m'', JNum 20), (''wind_direction_10m'', JNum 90),
        (''temperature_2m'', JNum 12.5), (''weather_code'', JNum 3),
        (''relative_humidity_2m'', JNull)])) \<and>
   (\<exists>c. normalize_current (JObj legacy_record) = Inr (JObj c) \<and>
      map_of c ''temperature_2m'' = Some (JNum 12.5) \<and>
      map_of c ''wind_speed_10m'' = Some (JNum 20) \<and>
      map_of c ''wind_direction_10m'' = Some (JNum 90) \<and>
      map_of c ''weather_code'' = Some (JNum 3) \<and>
      map_of c ''relative_humidity_2m'' = Some JNull)"
  by (simp add: legacy_record_def normalize_def dict_has_def dict_index_def dict_get_def)

text \<open>An empty response is skipped: \<open>main\<close> returns before any read.\<close>

lemma empty_response_skipped: "current_conditions [] = Inr None"
  by (simp add: current_conditions_def)



text \<open>
  Claim C9. A record that carries the modern field \<open>wind_speed_10m\<close>, as every
  canonical record does, comes back from the reconciliation unchanged; and whatever
  the reconciliation returns for any record, it returns unchanged when run again.
\<close>

theorem normalize_idempotent:
  "(dict_has d ''wind_speed_10m'' \<longrightarrow> normalize_current (JObj d) = Inr (JObj d)) \<and>
   (\<forall>c. normalize_current (JObj d) = Inr c \<longrightarrow> normalize_current c = Inr c)"
proof -
  have "normalize_current (JObj d) = Inr (JObj d)" if "dict_has d ''wind_speed_10m''"
    using that normalize_modern [of d] by (simp add: legacy_def)
  moreover have "normalize_current c = Inr c" if "normalize_current (JObj d) = Inr c" for c
  proof -
    from normalize_total [of d] obtain d' where d': "normalize d = Inr d'" by blast
    with that have c: "c = JObj d'" by simp
    from d' have "\<not> legacy d'" by (rule normalize_has_modern)
    then show ?thesis by (simp add: c normalize_modern)
  qed
  ultimately show ?thesis by blast
qed

theorem normalize_idempotent_witness:
  "dict_has modern_record ''wind_speed_10m'' \<and>
   normalize_current (JObj modern_record) = Inr (JObj modern_record) \<and>
   (\<exists>c. normalize_current (JObj legacy_record) = Inr c \<and> c \<noteq> JObj legacy_record \<and>
      normalize_current c = Inr c)"
proof -
  have m: "dict_has modern_record ''wind_speed_10m''"
    by (simp add: modern_record_def dict_has_def)
  obtain c where c: "normalize_current (JObj legacy_record) = Inr c" "c \<noteq> JObj legacy_record"
    by (simp add: legacy_record_def normalize_def dict_has_def dict_index_def dict_get_def)
  from m c normalize_idempotent [of modern_record] normalize_idempotent [of legacy_record]
  show ?thesis by blast
qed

text \<open>
  Claim C10. For every legacy-shaped record the reconciliation stores \<open>None\<close> as the
  humidity and the read \<open>current.get("relative_humidity_2m") or 0\<close> turns it into the
  number 0; a record whose measured humidity is 0 reads as the same 0, so the value
  displayed does not tell the two apart.
\<close>

theorem legacy_humidity_zero:
  "(legacy d \<longrightarrow>
      (\<exists>c v. normalize_current (JObj d) = Inr (JObj c) \<and>
         map_of c ''relative_humidity_2m'' = Some JNull \<and>
         read_current (JObj c) = Inr v \<and> humidity v = JNum 0)) \<and>
   (map_of d ''relative_humidity_2m'' = Some (JNum 0) \<longrightarrow>
      (\<exists>v. read_current (JObj d) = Inr v \<and> humidity v = JNum 0))"
proof -
  have "\<exists>c v. normalize_current (JObj d) = Inr (JObj c) \<and>
         map_of c ''relative_humidity_2m'' = Some JNull \<and>
         read_current (JObj c) = Inr v \<and> humidity v = JNum 0" if "legacy d"
  proof -
    from normalize_legacy [OF that] obtain c where n: "normalize d = Inr c"
      and h: "map_of c ''relative_humidity_2m'' = Some JNull"
      by (auto simp: map_of_dict_set)
    then show ?thesis by (simp add: dict_get1_def dict_get_def py_or_def)
  qed
  moreover have "\<exists>v. read_current (JObj d) = Inr v \<and> humidity v = JNum 0"
    if "map_of d ''relative_humidity_2m'' = Some (JNum 0)"
    using that by (simp add: dict_get1_def dict_get_def py_or_def)
  ultimately show ?thesis by blast
qed

theorem legacy_humidity_zero_witness:
  "legacy legacy_record \<and>
   map_of modern_record ''relative_humidity_2m'' = Some (JNum 0) \<and>
   (\<exists>c v. normalize_current (JObj legacy_record) = Inr (JObj c) \<and>
      read_current (JObj c) = Inr v \<and> humidity v = JNum 0) \<and>
   (\<exists>v. read_current (JObj modern_record) = Inr v \<and> humidity v = JNum 0)"
proof -
  have l: "legacy legacy_record"
    by (simp add: legacy_def legacy_record_def dict_has_def)
  have m: "map_of modern_record ''relative_humidity_2m'' = Some (JNum 0)"
    by (simp add: modern_record_def)
  from l m legacy_humidity_zero [of legacy_record] legacy_humidity_zero [of modern_record]
  show ?thesis by blast
qed

subsection \<open>The hourly table\<close>

lemma comprehension_length: "comprehension f xs = Inr ys \<Longrightarrow> length ys = length xs"
  by (induction xs arbitrary: ys) (auto split: sum.splits)

lemma comprehension_nth:
  "comprehension f xs = Inr ys \<Longrightarrow> i < length xs \<Longrightarrow> f (xs ! i) = Inr (ys ! i)"
proof (induction xs arbitrary: ys i)
  case Nil
  then show ?case by simp
next
  case (Cons x xs)
  then show ?case by (cases i) (auto split: sum.splits)
qed

lemma comprehension_ok:
  assumes "\<And>x. P x \<Longrightarrow> \<exists>y. f x = Inr y" and "list_all P xs"
  shows "\<exists>ys. comprehension f (take n xs) = Inr ys"
  using assms(2)
proof (induction xs arbitrary: n)
  case Nil
  then show ?case by simp
next
  case (Cons x xs)
  show ?case
  proof (cases n)
    case 0
    then show ?thesis by simp
  next
    case (Suc m)
    from Cons.prems assms(1) obtain y where "f x = Inr y" by auto
    moreover from Cons obtain ys where "comprehension f (take m xs) = Inr ys" by auto
    ultimately show ?thesis by (simp add: Suc)
  qed
qed

lemma tijd_of_str:
  "tijd_of (JStr t) = Inr (JStr (if 10 < length t then take 5 (drop 11 t) else t))"
  by (simp add: tijd_of_def)

lemma datum_of_str: "datum_of (JStr t) = Inr (JStr (take 10 t))"
  by (simp add: datum_of_def)

lemma tijd_ok: "is_str t \<Longrightarrow> \<exists>y. tijd_of t = Inr y"
  by (cases t) (simp_all add: tijd_of_str)

lemma datum_ok: "is_str t \<Longrightarrow> \<exists>y. datum_of t = Inr y"
  by (cases t) (simp_all add: datum_of_str)

lemma to_float_0_1_90: "to_float 0 = Some 0" "to_float 1 = Some 1" "to_float 90 = Some 90"
  by code_simp+

lemma direction_to_text_float:
  assumes "to_float b = Some r"
  shows "\<exists>s. direction_to_text b = Inr s"
  using direction_idx_float [OF assms] by (auto simp: direction_to_text_def)

lemma richting_ok:
  assumes "is_num d"
  shows "\<exists>y. richting_of d = Inr y"
proof (cases d)
  case (JNum r)
  with assms obtain x where "to_float r = Some x" by auto
  from direction_to_text_float [OF this] show ?thesis by (auto simp: JNum)
next
  case (JBool b)
  from direction_to_text_float [OF to_float_0_1_90(1)]
    direction_to_text_float [OF to_float_0_1_90(2)]
  show ?thesis by (auto simp: JBool)
qed (use assms in simp_all)

text \<open>
  What a built table holds: the two time columns are the comprehensions over the
  retained timestamps, and there is one row per retained timestamp.
\<close>

lemma hourly_table_columns:
  assumes "hourly_table h = Inr df"
  shows "comprehension tijd_of (hourly_times h) = Inr (column df ''Tijd'')"
    and "comprehension datum_of (hourly_times h) = Inr (column df ''Datum'')"
    and "nrows df = length (hourly_times h)"
proof -
  from assms obtain tijd datum where
    t: "comprehension tijd_of (hourly_times h) = Inr tijd" and
    d: "comprehension datum_of (hourly_times h) = Inr datum"
    by (auto simp: hourly_table_def Let_def split: sum.splits)
  from assms t d obtain cols where
    "data_frame ((''Tijd'', tijd) # (''Datum'', datum) # cols) = Inr df"
    by (auto simp: hourly_table_def Let_def split: sum.splits)
  then have df: "df = (''Tijd'', tijd) # (''Datum'', datum) # cols"
    by (auto simp: data_frame_def split: if_splits)
  from df t show "comprehension tijd_of (hourly_times h) = Inr (column df ''Tijd'')"
    by (simp add: column_def)
  from df d show "comprehension datum_of (hourly_times h) = Inr (column df ''Datum'')"
    by (simp add: column_def)
  from df have "nrows df = length tijd" by (simp add: nrows_def)
  also from t have "\<dots> = length (hourly_times h)" by (rule comprehension_length)
  finally show "nrows df = length (hourly_times h)" .
qed

lemma hourly_table_rows:
  assumes "hourly_table h = Inr df"
  shows "nrows df = min 48 (length (get_array h ''time'' []))"
  using hourly_table_columns(3) [OF assms] by (simp add: hourly_times_def min.commute)

text \<open>An aligned section always yields a table.\<close>

lemma aligned_table:
  assumes "aligned h n"
  shows "\<exists>df. hourly_table h = Inr df \<and> nrows df = min 48 n"
proof -
  from assms obtain ts a b ds where
    f: "map_of h ''time'' = Some ts" "map_of h ''temperature_2m'' = Some a"
       "map_of h ''wind_speed_10m'' = Some b" "map_of h ''wind_direction_10m'' = Some ds" and
    l: "length ts = n" "length a = n" "length b = n" "length ds = n"
    by (auto simp: aligned_def)
  from assms f have s: "list_all is_str ts" "list_all is_num ds"
    by (simp_all add: aligned_def get_array_def)
  from assms have p: "length (hourly_precip_probs h) = min 48 n"
    by (auto simp: aligned_def precip_ok_def hourly_precip_probs_def get_array_def
        split: option.splits)
  have c: "hourly_times h = take 48 ts" "hourly_temps h = take 48 a"
    "hourly_wind_speeds h = take 48 b" "hourly_wind_dirs h = take 48 ds"
    by (simp_all add: f hourly_times_def hourly_temps_def hourly_wind_speeds_def
        hourly_wind_dirs_def get_array_def)
  obtain tijd datum richting where
    r: "comprehension tijd_of (take 48 ts) = Inr tijd"
       "comprehension datum_of (take 48 ts) = Inr datum"
       "comprehension richting_of (take 48 ds) = Inr richting"
    using comprehension_ok [of is_str tijd_of ts 48, OF tijd_ok s(1)]
      comprehension_ok [of is_str datum_of ts 48, OF datum_ok s(1)]
      comprehension_ok [of is_num richting_of ds 48, OF richting_ok s(2)]
    by blast
  then have "length tijd = min 48 n" "length datum = min 48 n" "length richting = min 48 n"
    using l by (auto dest: comprehension_length simp: min.commute)
  with p l have "\<exists>df. hourly_table h = Inr df"
    by (simp add: hourly_table_def c r data_frame_def min.commute)
  then obtain df where df: "hourly_table h = Inr df" ..
  from hourly_table_rows [OF df] f l have "nrows df = min 48 n"
    by (simp add: get_array_def)
  with df show ?thesis by blast
qed

lemma aligned_sample: "aligned (sample_section n) n"
  by (simp add: aligned_def sample_section_def precip_ok_def get_array_def list_all_iff
      to_float_0_1_90)

text \<open>
  A section of 10 entries without the precipitation array: the default column has
  48 entries beside columns of 10, and building the table raises \<open>ValueError\<close>.
\<close>

lemma short_section_no_table:
  "hourly_table (sample_section_no_precip 10) = Inl ValueError"
  by code_simp

text \<open>
  Claim C3. With the precipitation array absent the column is 48 \<open>None\<close> markers
  whatever the horizon. On a section of 10 entries the other columns have 10 rows,
  the lengths differ and building the table raises \<open>ValueError\<close>; the same happens on
  an empty hourly section, whose other columns have no rows.
\<close>

theorem precip_default_mismatch:
  "hourly_precip_probs (sample_section_no_precip 10) = replicate 48 JNull \<and>
   length (hourly_times (sample_section_no_precip 10)) = 10 \<and>
   hourly_table (sample_section_no_precip 10) = Inl ValueError \<and>
   hourly_precip_probs [] = replicate 48 JNull \<and>
   hourly_times [] = [] \<and>
   hourly_table [] = Inl ValueError"
proof -
  have "hourly_precip_probs (sample_section_no_precip 10) = replicate 48 JNull"
    "length (hourly_times (sample_section_no_precip 10)) = 10"
    "hourly_precip_probs [] = replicate 48 JNull" "hourly_times [] = []"
    "hourly_table [] = Inl ValueError"
    by code_simp+
  with short_section_no_table show ?thesis by simp
qed

text \<open>
  Claim C6. The claim holds for a section of 72 entries (48 rows) and for one of 10
  entries that carries the precipitation array (10 rows). It fails on the section of
  10 entries without that array: no table is built, so there are no 10 rows.
\<close>

theorem hourly_rows_short_section:
  "length (get_array (sample_section_no_precip 10) ''time'' []) = 10 \<and>
   hourly_table (sample_section_no_precip 10) = Inl ValueError \<and>
   \<not> (\<exists>df. hourly_table (sample_section_no_precip 10) = Inr df \<and> nrows df = min 48 10) \<and>
   (\<exists>df. hourly_table (sample_section 10) = Inr df \<and> nrows df = 10) \<and>
   (\<exists>df. hourly_table (sample_section 72) = Inr df \<and> nrows df = 48)"
proof -
  have "length (get_array (sample_section_no_precip 10) ''time'' []) = 10"
    by (simp add: sample_section_no_precip_def sample_section_def get_array_def)
  moreover from aligned_table [OF aligned_sample [of 10]]
  have "\<exists>df. hourly_table (sample_section 10) = Inr df \<and> nrows df = 10" by simp
  moreover from aligned_table [OF aligned_sample [of 72]]
  have "\<exists>df. hourly_table (sample_section 72) = Inr df \<and> nrows df = 48" by simp
  ultimately show ?thesis using short_section_no_table by simp
qed

text \<open>
  Whenever the hourly table is built it has \<open>min 48 n\<close> rows, \<open>n\<close> being the number
  of timestamps of the section; and it is built for every aligned section of horizon
  \<open>n\<close>.
\<close>

theorem hourly_table_truncates:
  "(\<forall>df. hourly_table h = Inr df \<longrightarrow> nrows df = min 48 (length (get_array h ''time'' []))) \<and>
   (aligned h n \<longrightarrow> (\<exists>df. hourly_table h = Inr df \<and> nrows df = min 48 n))"
  using hourly_table_rows aligned_table by blast

theorem hourly_table_truncates_witness:
  "aligned (sample_section 72) 72 \<and> aligned (sample_section 10) 10 \<and>
   (\<exists>df. hourly_table (sample_section 72) = Inr df \<and> nrows df = 48) \<and>
   (\<exists>df. hourly_table (sample_section 10) = Inr df \<and> nrows df = 10)"
  using hourly_table_truncates [of "sample_section 72" 72]
    hourly_table_truncates [of "sample_section 10" 10] aligned_sample
  by simp

text \<open>
  Claim C7. In every hourly table that is built, the row of a timestamp string \<open>t\<close>
  has \<open>t[:10]\<close>, the first 10 characters of \<open>t\<close>, in the column \<open>Datum\<close>; in the
  column \<open>Tijd\<close> it has the slice \<open>t[11:16]\<close> when \<open>t\<close> has more than 10 characters
  and \<open>t\<close> itself otherwise. For a string of at least 16 characters the slice is the
  five characters at positions 11 to 15 counted from 0. The two comprehensions
  compute exactly this on each string.
\<close>

theorem timestamp_split:
  "(\<forall>df i. hourly_table h = Inr df \<and> i < nrows df \<and> get_array h ''time'' [] ! i = JStr t \<longrightarrow>
      column df ''Datum'' ! i = JStr (take 10 t) \<and>
      column df ''Tijd'' ! i = JStr (if 10 < length t then take 5 (drop 11 t) else t)) \<and>
   datum_of (JStr t) = Inr (JStr (take 10 t)) \<and>
   (10 < length t \<longrightarrow>
      tijd_of (JStr t) = Inr (JStr (take 5 (drop 11 t))) \<and> length (take 10 t) = 10) \<and>
   (16 \<le> length t \<longrightarrow> take 5 (drop 11 t) = map ((!) t) [11..<16]) \<and>
   (length t \<le> 10 \<longrightarrow> tijd_of (JStr t) = Inr (JStr t) \<and> datum_of (JStr t) = Inr (JStr t))"
proof -
  have d: "drop n t = t ! n # drop (Suc n) t" if "n < length t" for n
    using that by (simp add: Cons_nth_drop_Suc)
  have pos: "take 5 (drop 11 t) = map ((!) t) [11..<16]" if "16 \<le> length t"
    using that d [of 11] d [of 12] d [of 13] d [of 14] d [of 15] by simp
  have col: "column df ''Datum'' ! i = JStr (take 10 t) \<and>
      column df ''Tijd'' ! i = JStr (if 10 < length t then take 5 (drop 11 t) else t)"
    if df: "hourly_table h = Inr df" and i: "i < nrows df"
      and t: "get_array h ''time'' [] ! i = JStr t" for df i
  proof -
    from i have n: "i < length (hourly_times h)"
      by (simp add: hourly_table_columns(3) [OF df])
    then have "hourly_times h ! i = JStr t"
      using t by (simp add: hourly_times_def)
    with comprehension_nth [OF hourly_table_columns(1) [OF df] n]
      comprehension_nth [OF hourly_table_columns(2) [OF df] n]
    show ?thesis by (simp add: tijd_of_str datum_of_str)
  qed
  from pos col show ?thesis by (simp add: tijd_of_str datum_of_str)
qed

theorem timestamp_split_witness:
  "10 < length ''2024-06-01T14:30'' \<and> 16 \<le> length ''2024-06-01T14:30'' \<and>
   length ''14:30'' \<le> 10 \<and>
   datum_of (JStr ''2024-06-01T14:30'') = Inr (JStr ''2024-06-01'') \<and>
   tijd_of (JStr ''2024-06-01T14:30'') = Inr (JStr ''14:30'') \<and>
   tijd_of (JStr ''14:30'') = Inr (JStr ''14:30'') \<and>
   (\<exists>df. hourly_table (sample_section 2) = Inr df \<and> 1 < nrows df \<and>
      get_array (sample_section 2) ''time'' [] ! 1 = JStr ''2024-06-01T14:30'' \<and>
      column df ''Datum'' ! 1 = JStr ''2024-06-01'' \<and>
      column df ''Tijd'' ! 1 = JStr ''14:30'') \<and>
   (\<exists>df. hourly_table clock_section = Inr df \<and> 0 < nrows df \<and>
      get_array clock_section ''time'' [] ! 0 = JStr ''14:30'' \<and>
      column df ''Datum'' ! 0 = JStr ''14:30'' \<and>
      column df ''Tijd'' ! 0 = JStr ''14:30'')"
proof -
  from aligned_table [OF aligned_sample [of 2]] obtain df where
    df: "hourly_table (sample_section 2) = Inr df" "nrows df = 2" by auto
  have g: "get_array (sample_section 2) ''time'' [] ! 1 = JStr ''2024-06-01T14:30''"
    by (simp add: sample_section_def get_array_def numeral_2_eq_2)
  have "aligned clock_section 1"
    by (simp add: aligned_def clock_section_def precip_ok_def get_array_def to_float_0_1_90)
  from aligned_table [OF this] obtain df' where
    df': "hourly_table clock_section = Inr df'" "nrows df' = 1" by auto
  have g': "get_array clock_section ''time'' [] ! 0 = JStr ''14:30''"
    by (simp add: clock_section_def get_array_def)
  from df g timestamp_split [of "sample_section 2" "''2024-06-01T14:30''"]
  have a: "column df ''Datum'' ! 1 = JStr ''2024-06-01'' \<and> column df ''Tijd'' ! 1 = JStr ''14:30''"
    by simp
  from df' g' timestamp_split [of clock_section "''14:30''"]
  have b: "column df' ''Datum'' ! 0 = JStr ''14:30'' \<and> column df' ''Tijd'' ! 0 = JStr ''14:30''"
    by simp
  from timestamp_split [of "[]" "''2024-06-01T14:30''"] timestamp_split [of "[]" "''14:30''"]
  have c: "datum_of (JStr ''2024-06-01T14:30'') = Inr (JStr ''2024-06-01'') \<and>
     tijd_of (JStr ''2024-06-01T14:30'') = Inr (JStr ''14:30'') \<and>
     tijd_of (JStr ''14:30'') = Inr (JStr ''14:30'')"
    by simp
  from a b c df df' g g' show ?thesis by auto
qed

end
